theory Spec2Isabelle
  imports Main "HOL-Library.Word"
begin

section \<open>Values of the program\<close>

text \<open>
  A Python \<open>str\<close> is represented by the list of the bytes of its UTF-8 encoding, and
  \<open>bytes\<close> by a list of bytes, so \<open>s.encode("UTF-8")\<close> is the coercion between the two.
\<close>

type_synonym bytes = string

definition encode_UTF8 :: "string \<Rightarrow> bytes" where
  "encode_UTF8 s = s"

text \<open>
  The exceptions that the modelled code raises or lets through: \<open>AttributeError\<close> is
  raised by \<open>data.get\<close> on a value that is not a dict, \<open>HTTPException\<close> is what
  \<open>request.json\<close> raises by itself (with its status code), \<open>SessionNotFound\<close> and
  \<open>InferenceFailure\<close> are the two kinds of failure of the inference engine, and
  \<open>MalformedMessage\<close> is the failure of the codec's \<open>decode\<close>.
\<close>

datatype error =
    AttributeError
  | HTTPException nat
  | SessionNotFound
  | InferenceFailure
  | MalformedMessage

text \<open>
  What \<open>request.json\<close> evaluates to: \<open>None\<close> for the JSON \<open>null\<close>, a bool, an int, a
  float (kept as the 64 bits of its IEEE double, the code never computes with it), a str,
  a list or a dict (insertion ordered, hence an association list).
\<close>

datatype json =
    JNull
  | JBool bool
  | JInt int
  | JFloat "64 word"
  | JString string
  | JArray "json list"
  | JObject "(string \<times> json) list"

text \<open>\<open>d.get(k, default)\<close> of a Python dict.\<close>

definition dict_get :: "(string \<times> json) list \<Rightarrow> string \<Rightarrow> json \<Rightarrow> json" where
  "dict_get d k dflt = (case map_of d k of None \<Rightarrow> dflt | Some v \<Rightarrow> v)"

section \<open>The frame message codec\<close>

text \<open>
  Modelled from the spec: \<open>MultipartResponseBuilder\<close> (\<open>inference/multipart.py\<close>) is
  imported by the server and is not among the sources. Section 4.2 of the specification
  gives the encoded form of one message: the boundary marker on its own line, one header
  line per (key, value) pair in insertion order, a blank line, the raw body bytes and a
  trailing line terminator; section 6 shows the marker as \<open>--\<close> followed by the boundary
  and a header line as the key, a colon, a space and the value. The line terminator is
  taken to be CR LF, as in a multipart body.
\<close>

definition CR :: char where "CR = CHR 0x0D"
definition LF :: char where "LF = CHR 0x0A"
definition CRLF :: string where "CRLF = [CR, LF]"

record MultipartResponseBuilder =
  message :: bytes

definition header_line :: "string \<times> string \<Rightarrow> bytes" where
  "header_line h = fst h @ '': '' @ snd h @ CRLF"

definition build :: "string \<Rightarrow> (string \<times> string) list \<Rightarrow> bytes \<Rightarrow> MultipartResponseBuilder" where
  "build boundary headers body =
     \<lparr>message = ''--'' @ boundary @ CRLF @ concat (map header_line headers) @ CRLF @ body @ CRLF\<rparr>"

definition get_message :: "MultipartResponseBuilder \<Rightarrow> bytes" where
  "get_message b = message b"

definition encode :: "string \<Rightarrow> (string \<times> string) list \<Rightarrow> bytes \<Rightarrow> bytes" where
  "encode boundary headers body = get_message (build boundary headers body)"

text \<open>
  Modelled from the spec: \<open>decode\<close>, the inverse of \<open>encode\<close> for a single message, which
  fails with \<open>MalformedMessage\<close> (sections 4.2 and 7). It reads the marker line, then header
  lines up to the blank line, each split at its first colon and space, and takes what
  follows, less the trailing line terminator, as the body.

  \<open>split_sep a b s\<close> splits \<open>s\<close> at the first place where \<open>a\<close> is followed by \<open>b\<close>, and
  \<open>has_sep a b s\<close> says that there is such a place.
\<close>

fun split_sep :: "char \<Rightarrow> char \<Rightarrow> string \<Rightarrow> (string \<times> string) option" where
  "split_sep a b (x # y # r) =
     (if x = a \<and> y = b then Some ([], r)
      else (case split_sep a b (y # r) of None \<Rightarrow> None | Some (l, r') \<Rightarrow> Some (x # l, r')))"
| "split_sep a b r = None"

fun has_sep :: "char \<Rightarrow> char \<Rightarrow> string \<Rightarrow> bool" where
  "has_sep a b (x # y # r) = ((x = a \<and> y = b) \<or> has_sep a b (y # r))"
| "has_sep a b r = False"

lemma split_sep_shorter: "split_sep a b s = Some (l, r) \<Longrightarrow> length r < length s"
  by (induction a b s arbitrary: l r rule: split_sep.induct) (auto split: if_splits option.splits)

function parse_headers :: "bytes \<Rightarrow> ((string \<times> string) list \<times> bytes) option" where
  "parse_headers s =
     (case split_sep CR LF s of
        None \<Rightarrow> None
      | Some (line, rest) \<Rightarrow>
          if line = [] then Some ([], rest)
          else (case split_sep (CHR '':'') (CHR '' '') line of
                  None \<Rightarrow> None
                | Some (k, v) \<Rightarrow>
                    (case parse_headers rest of
                       None \<Rightarrow> None
                     | Some (hs, b) \<Rightarrow> Some ((k, v) # hs, b))))"
  by pat_completeness auto
termination
  by (relation "measure length") (auto dest: split_sep_shorter)

declare parse_headers.simps [simp del]

definition decode :: "bytes \<Rightarrow> error + ((string \<times> string) list \<times> bytes)" where
  "decode msg =
     (case split_sep CR LF msg of
        None \<Rightarrow> Inl MalformedMessage
      | Some (marker, rest) \<Rightarrow>
          if take 2 marker \<noteq> ''--'' then Inl MalformedMessage
          else (case parse_headers rest of
                  None \<Rightarrow> Inl MalformedMessage
                | Some (hs, rest') \<Rightarrow>
                    if 2 \<le> length rest' \<and> drop (length rest' - 2) rest' = CRLF
                    then Inr (hs, take (length rest' - 2) rest')
                    else Inl MalformedMessage))"

text \<open>
  The headers that \<open>decode\<close> can tell apart: no colon followed by a space in the key, and
  no line terminator in the key or in the value.
\<close>

definition header_ok :: "string \<times> string \<Rightarrow> bool" where
  "header_ok h \<longleftrightarrow>
     \<not> has_sep (CHR '':'') (CHR '' '') (fst h) \<and> \<not> has_sep CR LF (fst h) \<and> \<not> has_sep CR LF (snd h)"

section \<open>The inference engine, as the code sees it\<close>

text \<open>The dataclass \<open>PropagateInVideoRequest\<close> that is handed to the engine.\<close>

record PropagateInVideoRequest =
  req_type :: string
  session_id :: json
  start_frame_index :: json
  quick_test_mode :: json

text \<open>
  The iterator that \<open>inference_api.propagate_in_video\<close> returns is described by what it
  does when it is pulled: it has \<open>results\<close> to yield, and \<open>fails_after = Some (k, e)\<close> says
  that the pull after \<open>k\<close> yielded results raises \<open>e\<close> instead of yielding the next one.
\<close>

record 'c frame_sequence =
  results :: "'c list"
  fails_after :: "(nat \<times> error) option"

datatype 'a pulled = Item 'a | StopIteration | Raised error

definition seq_next :: "'c frame_sequence \<Rightarrow> nat \<Rightarrow> 'c pulled" where
  "seq_next s i =
     (case fails_after s of
        Some (k, e) \<Rightarrow>
          if i = k then Raised e
          else if i < length (results s) then Item (results s ! i) else StopIteration
      | None \<Rightarrow> if i < length (results s) then Item (results s ! i) else StopIteration)"

section \<open>The generator \<open>gen_track_with_mask_stream\<close>\<close>

text \<open>
  A generator object: the arguments of the call and where its body is suspended.
  Calling the generator function runs nothing of the body.
\<close>

datatype gen_state = NotStarted | Suspended nat | Finished

record generator =
  g_boundary :: string
  g_session_id :: json
  g_start_frame_index :: json
  g_quick_test_mode :: json
  g_state :: gen_state

definition gen_track_with_mask_stream :: "string \<Rightarrow> json \<Rightarrow> json \<Rightarrow> json \<Rightarrow> generator" where
  "gen_track_with_mask_stream boundary sid sfi qtm =
     \<lparr>g_boundary = boundary, g_session_id = sid, g_start_frame_index = sfi,
      g_quick_test_mode = qtm, g_state = NotStarted\<rparr>"

text \<open>
  What a run of the generator does, in order: entering and leaving the block
  \<open>with inference_api.autocast_context()\<close>, the two log lines of the request, the call of
  the engine with the request object, each chunk pulled from the engine's iterator and
  each message yielded.
\<close>

datatype 'c event =
    ContextEnter
  | ContextExit
  | Logged PropagateInVideoRequest
  | EngineCalled PropagateInVideoRequest
  | Pulled 'c
  | Yielded bytes

definition request_data :: "generator \<Rightarrow> PropagateInVideoRequest" where
  "request_data g =
     \<lparr>req_type = ''propagate_in_video'', session_id = g_session_id g,
      start_frame_index = g_start_frame_index g, quick_test_mode = g_quick_test_mode g\<rparr>"

text \<open>The headers and the message that the loop body builds for one chunk.\<close>

definition frame_headers :: "(string \<times> string) list" where
  "frame_headers =
     [(''Content-Type'', ''application/json; charset=utf-8''),
      (''Frame-Current'', ''-1''),
      (''Frame-Total'', ''-1''),
      (''Mask-Type'', ''RLE[]'')]"

definition chunk_message :: "string \<Rightarrow> ('c \<Rightarrow> string) \<Rightarrow> 'c \<Rightarrow> bytes" where
  "chunk_message boundary to_json chunk =
     get_message (build boundary frame_headers (encode_UTF8 (to_json chunk)))"

text \<open>
  One turn of the \<open>for\<close> loop, from the \<open>i\<close>-th pull of the engine's iterator to the next
  \<open>yield\<close> or to the end of the body. The loop is inside the \<open>with\<close> block, so leaving it,
  when the iterator is exhausted or raises, leaves the context.
\<close>

definition for_loop_step ::
  "(PropagateInVideoRequest \<Rightarrow> 'c frame_sequence) \<Rightarrow> ('c \<Rightarrow> string) \<Rightarrow> generator \<Rightarrow> nat \<Rightarrow>
     bytes pulled \<times> 'c event list \<times> generator" where
  "for_loop_step engine to_json g i =
     (case seq_next (engine (request_data g)) i of
        Item chunk \<Rightarrow>
          (Item (chunk_message (g_boundary g) to_json chunk),
           [Pulled chunk, Yielded (chunk_message (g_boundary g) to_json chunk)],
           g\<lparr>g_state := Suspended (Suc i)\<rparr>)
      | StopIteration \<Rightarrow> (StopIteration, [ContextExit], g\<lparr>g_state := Finished\<rparr>)
      | Raised e \<Rightarrow> (Raised e, [ContextExit], g\<lparr>g_state := Finished\<rparr>))"

text \<open>
  \<open>next(g)\<close>: the first one runs the body from its start, the later ones resume after the
  \<open>yield\<close>, and a finished generator stops at once.
\<close>

definition gen_next ::
  "(PropagateInVideoRequest \<Rightarrow> 'c frame_sequence) \<Rightarrow> ('c \<Rightarrow> string) \<Rightarrow> generator \<Rightarrow>
     bytes pulled \<times> 'c event list \<times> generator" where
  "gen_next engine to_json g =
     (case g_state g of
        NotStarted \<Rightarrow>
          (case for_loop_step engine to_json g 0 of
             (r, ev, g') \<Rightarrow>
               (r, [ContextEnter, Logged (request_data g), Logged (request_data g),
                    EngineCalled (request_data g)] @ ev, g'))
      | Suspended i \<Rightarrow> for_loop_step engine to_json g i
      | Finished \<Rightarrow> (StopIteration, [], g))"

text \<open>
  \<open>g.close()\<close>: at a \<open>yield\<close> it raises \<open>GeneratorExit\<close> there, which leaves the \<open>with\<close>
  block; a generator that has not started, or has finished, runs nothing.
\<close>

definition gen_close :: "generator \<Rightarrow> 'c event list \<times> generator" where
  "gen_close g =
     (case g_state g of
        NotStarted \<Rightarrow> ([], g\<lparr>g_state := Finished\<rparr>)
      | Suspended i \<Rightarrow> ([ContextExit], g\<lparr>g_state := Finished\<rparr>)
      | Finished \<Rightarrow> ([], g))"

section \<open>The endpoint \<open>propagate_in_video\<close>\<close>

text \<open>
  A Flask response: \<open>make_response(text, status)\<close> has a plain body, and
  \<open>Response(generator, mimetype=m)\<close> has status 200, the content type \<open>m\<close> and the
  generator, not yet started, as its body.
\<close>

datatype response_body = Plain string | Streaming generator

record Response =
  status :: nat
  mimetype :: "string option"
  resp_body :: response_body

definition make_response :: "string \<Rightarrow> nat \<Rightarrow> Response" where
  "make_response text st = \<lparr>status = st, mimetype = None, resp_body = Plain text\<rparr>"

definition Response_stream :: "generator \<Rightarrow> string \<Rightarrow> Response" where
  "Response_stream g m = \<lparr>status = 200, mimetype = Some m, resp_body = Streaming g\<rparr>"

text \<open>
  The view function. Its argument is the outcome of \<open>request.json\<close>: the parsed value,
  or the exception that Flask raises for a body it cannot parse, which the view lets
  through. \<open>data.get\<close> exists on a dict only: on every other value that is not \<open>None\<close>
  the first \<open>data.get\<close> raises \<open>AttributeError\<close>.
\<close>

definition propagate_in_video :: "error + json \<Rightarrow> error + Response" where
  "propagate_in_video request_json =
     (case request_json of
        Inl e \<Rightarrow> Inl e
      | Inr data \<Rightarrow>
          if data = JNull then Inr (make_response ''Invalid JSON'' 400)
          else
            (case data of
               JObject d \<Rightarrow>
                 let sid = dict_get d ''session_id'' JNull;
                     sfi = dict_get d ''start_frame_index'' (JInt 0);
                     qtm = dict_get d ''quick_test_mode'' (JBool False)
                 in if sid = JNull then Inr (make_response ''Missing session_id'' 400)
                    else
                      let boundary = ''frame'';
                          frame = gen_track_with_mask_stream boundary sid sfi qtm
                      in Inr (Response_stream frame (''multipart/x-savi-stream; boundary='' @ boundary))
             | _ \<Rightarrow> Inl AttributeError))"

section \<open>The transport that consumes the response\<close>

text \<open>
  The WSGI server is outside the repository. It is modelled as section 5 of the
  specification describes it, which is also how a WSGI server iterates a response: it
  pulls one message, writes it to the socket, and only then pulls the next one; a
  disconnect shows as a failed write, after which it pulls no more; and in every case it
  closes the generator at the end. \<open>writes = Some n\<close> says that the client takes \<open>n\<close> messages
  and that the write after them fails, \<open>writes = None\<close> that the client never disconnects.
  The result is the run's events, the messages written, and how the stream ended.
\<close>

datatype ending = Completed | Aborted error | Disconnected

definition pulls_left :: "(PropagateInVideoRequest \<Rightarrow> 'c frame_sequence) \<Rightarrow> generator \<Rightarrow> nat" where
  "pulls_left engine g =
     (case g_state g of
        NotStarted \<Rightarrow> Suc (Suc (length (results (engine (request_data g)))))
      | Suspended i \<Rightarrow> Suc (length (results (engine (request_data g))) - i)
      | Finished \<Rightarrow> 0)"

lemma seq_next_Item: "seq_next s i = Item c \<Longrightarrow> i < length (results s)"
  by (auto simp: seq_next_def split: option.splits if_splits)

lemma gen_next_Item_pulls_left:
  "gen_next engine to_json g = (Item m, ev, g') \<Longrightarrow> pulls_left engine g' < pulls_left engine g"
  by (auto simp: gen_next_def for_loop_step_def pulls_left_def request_data_def
      split: gen_state.splits pulled.splits prod.splits dest!: seq_next_Item)

function serve ::
  "(PropagateInVideoRequest \<Rightarrow> 'c frame_sequence) \<Rightarrow> ('c \<Rightarrow> string) \<Rightarrow> nat option \<Rightarrow> generator \<Rightarrow>
     'c event list \<times> bytes list \<times> ending" where
  "serve engine to_json writes g =
     (case gen_next engine to_json g of
        (Item m, ev, g') \<Rightarrow>
          if writes = Some 0 then (ev @ fst (gen_close g'), [], Disconnected)
          else (case serve engine to_json (map_option (\<lambda>n. n - 1) writes) g' of
                  (ev', sent, e) \<Rightarrow> (ev @ ev', m # sent, e))
      | (StopIteration, ev, g') \<Rightarrow> (ev @ fst (gen_close g'), [], Completed)
      | (Raised err, ev, g') \<Rightarrow> (ev @ fst (gen_close g'), [], Aborted err))"
  by pat_completeness auto
termination
  by (relation "measure (\<lambda>(engine, to_json, writes, g). pulls_left engine g)")
     (auto dest: gen_next_Item_pulls_left [OF sym])

declare serve.simps [simp del]




section \<open>Reading a run\<close>

text \<open>The messages yielded, the chunks pulled and the engine calls of a run, in order.\<close>

fun yielded :: "'c event list \<Rightarrow> bytes list" where
  "yielded [] = []"
| "yielded (Yielded m # tr) = m # yielded tr"
| "yielded (_ # tr) = yielded tr"

fun pulled_chunks :: "'c event list \<Rightarrow> 'c list" where
  "pulled_chunks [] = []"
| "pulled_chunks (Pulled c # tr) = c # pulled_chunks tr"
| "pulled_chunks (_ # tr) = pulled_chunks tr"

fun engine_calls :: "'c event list \<Rightarrow> PropagateInVideoRequest list" where
  "engine_calls [] = []"
| "engine_calls (EngineCalled r # tr) = r # engine_calls tr"
| "engine_calls (_ # tr) = engine_calls tr"

text \<open>The value of a header of an encoded message, as a client reads it.\<close>

definition header_value :: "string \<Rightarrow> bytes \<Rightarrow> string option" where
  "header_value k m = (case decode m of Inl e \<Rightarrow> None | Inr (hs, b) \<Rightarrow> map_of hs k)"

text \<open>A rejection: a response with a 400 status and a plain body, nothing streamed.\<close>

definition rejected :: "error + Response \<Rightarrow> bool" where
  "rejected res =
     (case res of
        Inl e \<Rightarrow> False
      | Inr r \<Rightarrow> status r = 400 \<and> (case resp_body r of Plain text \<Rightarrow> True | Streaming g \<Rightarrow> False))"

text \<open>
  What the engine's iterator yields before it ends, and how it ends: the first
  \<open>yield_count\<close> results, then exhaustion (\<open>None\<close>) or the error it raises.
\<close>

definition yield_count :: "'c frame_sequence \<Rightarrow> nat" where
  "yield_count s =
     (case fails_after s of None \<Rightarrow> length (results s) | Some (k, e) \<Rightarrow> min k (length (results s)))"

definition seq_end :: "'c frame_sequence \<Rightarrow> error option" where
  "seq_end s =
     (case fails_after s of
        None \<Rightarrow> None
      | Some (k, e) \<Rightarrow> if k \<le> length (results s) then Some e else None)"

definition yielded_items :: "'c frame_sequence \<Rightarrow> 'c list" where
  "yielded_items s = take (yield_count s) (results s)"

text \<open>
  The loop of the transport over the generator, written by recursion on the chunks that
  are still to come; \<open>serve\<close> is shown below to compute the same.
\<close>

fun run_loop ::
  "('c \<Rightarrow> bytes) \<Rightarrow> 'c list \<Rightarrow> error option \<Rightarrow> nat option \<Rightarrow> 'c event list \<times> bytes list \<times> ending" where
  "run_loop msg [] fin writes =
     ([ContextExit], [], (case fin of None \<Rightarrow> Completed | Some e \<Rightarrow> Aborted e))"
| "run_loop msg (c # cs) fin writes =
     (if writes = Some 0 then ([Pulled c, Yielded (msg c), ContextExit], [], Disconnected)
      else (case run_loop msg cs fin (map_option (\<lambda>n. n - 1) writes) of
              (ev, sent, e) \<Rightarrow> (Pulled c # Yielded (msg c) # ev, msg c # sent, e)))"

text \<open>
  The events of the turns of the loop over some chunks, the ending of a stream whose
  sequence was consumed to its end, and the chunks that are pulled and the chunks whose
  messages are written when the client takes \<open>writes\<close> messages.
\<close>

definition turns :: "('c \<Rightarrow> bytes) \<Rightarrow> 'c list \<Rightarrow> 'c event list" where
  "turns msg cs = concat (map (\<lambda>c. [Pulled c, Yielded (msg c)]) cs)"

definition ending_of :: "error option \<Rightarrow> ending" where
  "ending_of fin = (case fin of None \<Rightarrow> Completed | Some e \<Rightarrow> Aborted e)"

definition pulls :: "nat option \<Rightarrow> 'c frame_sequence \<Rightarrow> 'c list" where
  "pulls writes s =
     take (case writes of None \<Rightarrow> length (yielded_items s) | Some d \<Rightarrow> Suc d) (yielded_items s)"

definition written :: "nat option \<Rightarrow> 'c frame_sequence \<Rightarrow> 'c list" where
  "written writes s =
     take (case writes of None \<Rightarrow> length (yielded_items s) | Some d \<Rightarrow> d) (yielded_items s)"

section \<open>A concrete engine result\<close>

text \<open>
  Modelled from the spec: \<open>PropagateDataResponse\<close> (\<open>inference/data_types.py\<close>) is imported
  by the server and is not among the sources. Section 3 of the specification gives a frame
  result a frame index, a total and the masks by object id, and section 6 the shape of
  its JSON document. The generator is modelled for any chunk type and any \<open>to_json\<close>; this
  one serves as the concrete case.
\<close>

record PropagateDataResponse =
  frame_index :: int
  total_frames :: int
  masks :: "(int \<times> string) list"

fun show_nat :: "nat \<Rightarrow> string" where
  "show_nat n =
     (if n < 10 then [''0123456789'' ! n]
      else show_nat (n div 10) @ [''0123456789'' ! (n mod 10)])"

declare show_nat.simps [simp del]

definition show_int :: "int \<Rightarrow> string" where
  "show_int i = (if i < 0 then ''-'' @ show_nat (nat (- i)) else show_nat (nat i))"

definition quoted :: "string \<Rightarrow> string" where
  "quoted s = [CHR 0x22] @ s @ [CHR 0x22]"

fun mask_entries :: "(int \<times> string) list \<Rightarrow> string" where
  "mask_entries [] = []"
| "mask_entries [(k, v)] = quoted (show_int k) @ '': '' @ quoted v"
| "mask_entries ((k, v) # kvs) = quoted (show_int k) @ '': '' @ quoted v @ '', '' @ mask_entries kvs"

definition response_to_json :: "PropagateDataResponse \<Rightarrow> string" where
  "response_to_json r =
     ''{'' @ quoted ''frame_index'' @ '': '' @ show_int (frame_index r) @ '', '' @
     quoted ''masks'' @ '': {'' @ mask_entries (masks r) @ ''}}''"

definition frame_result :: "int \<Rightarrow> PropagateDataResponse" where
  "frame_result i = \<lparr>frame_index = i, total_frames = 5, masks = [(1, ''rle'')]\<rparr>"

text \<open>
  Two engines for the examples: one yields the frames 0 to 3 and stops, the other has
  five frames and raises after two of them.
\<close>

definition four_frames :: "PropagateInVideoRequest \<Rightarrow> PropagateDataResponse frame_sequence" where
  "four_frames r = \<lparr>results = [frame_result 0, frame_result 1, frame_result 2, frame_result 3], fails_after = None\<rparr>"

definition fails_after_two :: "PropagateInVideoRequest \<Rightarrow> PropagateDataResponse frame_sequence" where
  "fails_after_two r =
     \<lparr>results = [frame_result 0, frame_result 1, frame_result 2, frame_result 3, frame_result 4],
      fails_after = Some (2, InferenceFailure)\<rparr>"


section \<open>Validation\<close>

lemma propagate_in_video_object:
  "propagate_in_video (Inr (JObject d)) =
     (if dict_get d ''session_id'' JNull = JNull
      then Inr (make_response ''Missing session_id'' 400)
      else Inr (Response_stream
             (gen_track_with_mask_stream ''frame'' (dict_get d ''session_id'' JNull)
                (dict_get d ''start_frame_index'' (JInt 0))
                (dict_get d ''quick_test_mode'' (JBool False)))
             ''multipart/x-savi-stream; boundary=frame''))"
  by (simp add: propagate_in_video_def Let_def)

lemma dict_get_absent: "map_of d k = None \<Longrightarrow> dict_get d k dflt = dflt"
  by (simp add: dict_get_def)

lemma dict_get_present: "map_of d k = Some v \<Longrightarrow> dict_get d k dflt = v"
  by (simp add: dict_get_def)

lemma propagate_in_video_accepts:
  assumes "map_of d ''session_id'' = Some sid" and "sid \<noteq> JNull"
  shows "propagate_in_video (Inr (JObject d)) =
     Inr (Response_stream
            (gen_track_with_mask_stream ''frame'' sid
               (dict_get d ''start_frame_index'' (JInt 0))
               (dict_get d ''quick_test_mode'' (JBool False)))
            ''multipart/x-savi-stream; boundary=frame'')"
  using assms by (simp add: propagate_in_video_object dict_get_present)

lemma propagate_in_video_missing:
  assumes "map_of d ''session_id'' = None \<or> map_of d ''session_id'' = Some JNull"
  shows "propagate_in_video (Inr (JObject d)) = Inr (make_response ''Missing session_id'' 400)"
  using assms by (auto simp: propagate_in_video_object dict_get_def)

text \<open>
  A body that is JSON but neither \<open>null\<close> nor an object is not answered by the view: the
  first \<open>data.get\<close> raises. An exception of \<open>request.json\<close> itself goes through unchanged.
\<close>

lemma propagate_in_video_not_dict:
  "propagate_in_video (Inr (JArray xs)) = Inl AttributeError"
  "propagate_in_video (Inr (JString s)) = Inl AttributeError"
  "propagate_in_video (Inr (JInt i)) = Inl AttributeError"
  "propagate_in_video (Inr (JFloat w)) = Inl AttributeError"
  "propagate_in_video (Inr (JBool b)) = Inl AttributeError"
  by (simp_all add: propagate_in_video_def)

lemma propagate_in_video_raises: "propagate_in_video (Inl e) = Inl e"
  by (simp add: propagate_in_video_def)

text \<open>
  C3, as amended. The view rejects exactly two payloads, each with a 400 response that
  has a plain body and ends there: a body whose JSON is \<open>null\<close> (\<open>Invalid JSON\<close>), and an
  object in which \<open>session_id\<close> is absent or \<open>null\<close> (\<open>Missing session_id\<close>). The type
  of \<open>session_id\<close> is not checked: an object with any other \<open>session_id\<close>, a string or
  not, is not rejected.
\<close>

theorem validation_failures:
  "propagate_in_video (Inr JNull) = Inr (make_response ''Invalid JSON'' 400)
   \<and> rejected (Inr (make_response ''Invalid JSON'' 400))
   \<and> rejected (Inr (make_response ''Missing session_id'' 400))
   \<and> (map_of d ''session_id'' = None \<or> map_of d ''session_id'' = Some JNull \<longrightarrow>
        propagate_in_video (Inr (JObject d)) = Inr (make_response ''Missing session_id'' 400))
   \<and> (map_of d ''session_id'' = Some sid \<and> sid \<noteq> JNull \<longrightarrow>
        \<not> rejected (propagate_in_video (Inr (JObject d))))"
proof (intro conjI impI)
  show "propagate_in_video (Inr JNull) = Inr (make_response ''Invalid JSON'' 400)"
    by (simp add: propagate_in_video_def)
  show "rejected (Inr (make_response ''Invalid JSON'' 400))"
    and "rejected (Inr (make_response ''Missing session_id'' 400))"
    by (simp_all add: rejected_def make_response_def)
  show "propagate_in_video (Inr (JObject d)) = Inr (make_response ''Missing session_id'' 400)"
    if "map_of d ''session_id'' = None \<or> map_of d ''session_id'' = Some JNull"
    using that by (rule propagate_in_video_missing)
  show "\<not> rejected (propagate_in_video (Inr (JObject d)))"
    if "map_of d ''session_id'' = Some sid \<and> sid \<noteq> JNull"
    using that by (simp add: propagate_in_video_accepts rejected_def Response_stream_def)
qed

text \<open>
  The theorem at the payloads \<open>{}\<close>, \<open>{"session_id": null}\<close> and \<open>{"session_id": 123}\<close>.
\<close>

theorem validation_failures_witness:
  "propagate_in_video (Inr (JObject [])) = Inr (make_response ''Missing session_id'' 400)
   \<and> propagate_in_video (Inr (JObject [(''session_id'', JNull)])) =
       Inr (make_response ''Missing session_id'' 400)
   \<and> \<not> rejected (propagate_in_video (Inr (JObject [(''session_id'', JInt 123)])))"
  using validation_failures [of "[]"]
    validation_failures [of "[(''session_id'', JNull)]"]
    validation_failures [of "[(''session_id'', JInt 123)]" "JInt 123"]
  by simp

text \<open>
  C3 as stated fails: the payload \<open>{"session_id": 123}\<close>, whose \<open>session_id\<close> is not a
  string, is not rejected; the view answers it with the streaming response.
\<close>

theorem non_string_session_id_counterexample:
  "\<not> rejected (propagate_in_video (Inr (JObject [(''session_id'', JInt 123)])))
   \<and> propagate_in_video (Inr (JObject [(''session_id'', JInt 123)])) =
       Inr (Response_stream
              (gen_track_with_mask_stream ''frame'' (JInt 123) (JInt 0) (JBool False))
              ''multipart/x-savi-stream; boundary=frame'')"
  by (simp add: propagate_in_video_object dict_get_def rejected_def Response_stream_def)

text \<open>
  C4. For a payload that passes validation, the command that the view builds has the
  payload's \<open>session_id\<close>, has \<open>start_frame_index = 0\<close> when the payload has no
  \<open>start_frame_index\<close>, and has \<open>quick_test_mode = False\<close> when the payload has no
  \<open>quick_test_mode\<close>.
\<close>

theorem validation_defaults:
  assumes "map_of d ''session_id'' = Some sid" and "sid \<noteq> JNull"
  shows "\<exists>g. propagate_in_video (Inr (JObject d)) =
               Inr (Response_stream g ''multipart/x-savi-stream; boundary=frame'')
           \<and> session_id (request_data g) = sid
           \<and> (map_of d ''start_frame_index'' = None \<longrightarrow> start_frame_index (request_data g) = JInt 0)
           \<and> (map_of d ''quick_test_mode'' = None \<longrightarrow> quick_test_mode (request_data g) = JBool False)"
proof (intro exI conjI impI)
  show "propagate_in_video (Inr (JObject d)) =
      Inr (Response_stream
            (gen_track_with_mask_stream ''frame'' sid
               (dict_get d ''start_frame_index'' (JInt 0))
               (dict_get d ''quick_test_mode'' (JBool False)))
            ''multipart/x-savi-stream; boundary=frame'')"
    using assms by (rule propagate_in_video_accepts)
qed (simp_all add: request_data_def gen_track_with_mask_stream_def dict_get_absent)

text \<open>
  The theorem at the payload \<open>{"session_id": "abc"}\<close>: the command is
  \<open>(session_id = "abc", start_frame_index = 0, quick_test_mode = False)\<close>.
\<close>

theorem validation_defaults_witness:
  "\<exists>g. propagate_in_video (Inr (JObject [(''session_id'', JString ''abc'')])) =
          Inr (Response_stream g ''multipart/x-savi-stream; boundary=frame'')
      \<and> session_id (request_data g) = JString ''abc''
      \<and> start_frame_index (request_data g) = JInt 0
      \<and> quick_test_mode (request_data g) = JBool False"
  using validation_defaults [of "[(''session_id'', JString ''abc'')]" "JString ''abc''"]
  by simp

text \<open>
  C5. For a payload that passes validation, the view returns a response with status 200
  whose body is the generator, whose content type is exactly
  \<open>multipart/x-savi-stream; boundary=frame\<close>, and whose generator has the boundary \<open>frame\<close>.
\<close>

theorem streaming_content_type:
  assumes "map_of d ''session_id'' = Some sid" and "sid \<noteq> JNull"
  shows "\<exists>r g. propagate_in_video (Inr (JObject d)) = Inr r
           \<and> status r = 200
           \<and> mimetype r = Some ''multipart/x-savi-stream; boundary=frame''
           \<and> resp_body r = Streaming g
           \<and> g_boundary g = ''frame''"
  using assms
  by (simp add: propagate_in_video_accepts Response_stream_def gen_track_with_mask_stream_def)

text \<open>The theorem at the payload \<open>{"session_id": "s1", "start_frame_index": 5}\<close>.\<close>

theorem streaming_content_type_witness:
  "\<exists>r g. propagate_in_video
            (Inr (JObject [(''session_id'', JString ''s1''), (''start_frame_index'', JInt 5)])) = Inr r
         \<and> status r = 200
         \<and> mimetype r = Some ''multipart/x-savi-stream; boundary=frame''
         \<and> resp_body r = Streaming g
         \<and> g_boundary g = ''frame''"
  using streaming_content_type
    [of "[(''session_id'', JString ''s1''), (''start_frame_index'', JInt 5)]" "JString ''s1''"]
  by simp

text \<open>
  C9. An object whose \<open>session_id\<close> is \<open>null\<close> gets the 400 response
  \<open>Missing session_id\<close>, the same response as the object without that key.
\<close>

theorem null_session_id_as_absent:
  assumes "map_of d ''session_id'' = Some JNull"
  shows "propagate_in_video (Inr (JObject d)) = Inr (make_response ''Missing session_id'' 400)
       \<and> propagate_in_video (Inr (JObject d)) =
           propagate_in_video (Inr (JObject (filter (\<lambda>kv. fst kv \<noteq> ''session_id'') d)))
       \<and> map_of (filter (\<lambda>kv. fst kv \<noteq> ''session_id'') d) ''session_id'' = None
       \<and> rejected (propagate_in_video (Inr (JObject d)))"
proof -
  have a: "map_of (filter (\<lambda>kv. fst kv \<noteq> ''session_id'') d) ''session_id'' = None"
    by (auto simp: map_of_eq_None_iff)
  show ?thesis
    using assms a by (simp add: propagate_in_video_missing rejected_def make_response_def)
qed

text \<open>
  The theorem at \<open>{"session_id": null, "start_frame_index": 5}\<close>, against
  \<open>{"start_frame_index": 5}\<close>.
\<close>

theorem null_session_id_as_absent_witness:
  "propagate_in_video (Inr (JObject [(''session_id'', JNull), (''start_frame_index'', JInt 5)])) =
     Inr (make_response ''Missing session_id'' 400)
   \<and> propagate_in_video (Inr (JObject [(''session_id'', JNull), (''start_frame_index'', JInt 5)])) =
     propagate_in_video (Inr (JObject [(''start_frame_index'', JInt 5)]))"
proof -
  have h: "map_of [(''session_id'', JNull), (''start_frame_index'', JInt 5)] ''session_id'' = Some JNull"
    by simp
  have f: "filter (\<lambda>kv. fst kv \<noteq> ''session_id'') [(''session_id'', JNull), (''start_frame_index'', JInt 5)]
      = [(''start_frame_index'', JInt 5)]"
    by simp
  show ?thesis
    using null_session_id_as_absent [OF h] unfolding f by blast
qed

section \<open>The codec\<close>

lemma split_sep_append:
  "a \<noteq> b \<Longrightarrow> \<not> has_sep a b l \<Longrightarrow> split_sep a b (l @ a # b # r) = Some (l, r)"
  by (induction a b l rule: has_sep.induct) auto

lemma has_sep_Cons: "x \<noteq> a \<Longrightarrow> has_sep a b (x # ys) = has_sep a b ys"
  by (cases ys) auto

lemma has_sep_append:
  "\<not> has_sep a b xs \<Longrightarrow> \<not> has_sep a b ys \<Longrightarrow>
   \<not> (xs \<noteq> [] \<and> ys \<noteq> [] \<and> last xs = a \<and> hd ys = b) \<Longrightarrow> \<not> has_sep a b (xs @ ys)"
  by (induction a b xs rule: has_sep.induct) (cases ys; auto)+

lemma CR_neq_LF: "CR \<noteq> LF"
  by (simp add: CR_def LF_def)

lemma printable_neq_CR_LF:
  "CHR ''-'' \<noteq> CR" "CHR '':'' \<noteq> CR" "CHR '' '' \<noteq> CR" "CHR '':'' \<noteq> LF"
  by (simp_all add: CR_def LF_def)

lemma header_line_no_CRLF:
  assumes "header_ok h"
  shows "\<not> has_sep CR LF (fst h @ '': '' @ snd h)"
proof -
  have cv: "\<not> has_sep CR LF ('': '' @ snd h)"
    using assms by (simp add: header_ok_def has_sep_Cons printable_neq_CR_LF)
  show ?thesis
    using assms cv by (intro has_sep_append) (auto simp: header_ok_def printable_neq_CR_LF)
qed

lemma split_header_line:
  assumes "header_ok h"
  shows "split_sep CR LF (header_line h @ rest) = Some (fst h @ CHR '':'' # CHR '' '' # snd h, rest)"
proof -
  have "header_line h @ rest = (fst h @ '': '' @ snd h) @ CR # LF # rest"
    by (simp add: header_line_def CRLF_def)
  then show ?thesis
    using split_sep_append [OF CR_neq_LF header_line_no_CRLF [OF assms]] by simp
qed

lemma split_key_value:
  assumes "header_ok h"
  shows "split_sep (CHR '':'') (CHR '' '') (fst h @ CHR '':'' # CHR '' '' # snd h) = Some (fst h, snd h)"
proof -
  have "\<not> has_sep (CHR '':'') (CHR '' '') (fst h)"
    using assms by (simp add: header_ok_def)
  then show ?thesis
    using split_sep_append [of "CHR '':''" "CHR '' ''" "fst h" "snd h"] by simp
qed

lemma parse_headers_lines:
  "list_all header_ok hs \<Longrightarrow>
   parse_headers (concat (map header_line hs) @ CRLF @ rest) = Some (hs, rest)"
proof (induction hs)
  case Nil
  have "split_sep CR LF (CR # LF # rest) = Some ([], rest)" by simp
  then show ?case
    by (subst parse_headers.simps) (simp add: CRLF_def)
next
  case (Cons h hs)
  then have ok: "header_ok h"
    and IH: "parse_headers (concat (map header_line hs) @ CRLF @ rest) = Some (hs, rest)"
    by simp_all
  have "parse_headers (header_line h @ (concat (map header_line hs) @ CRLF @ rest)) = Some (h # hs, rest)"
    by (subst parse_headers.simps) (simp add: split_header_line [OF ok] split_key_value [OF ok] IH)
  then show ?case by simp
qed

lemma decode_encode:
  assumes b: "\<not> has_sep CR LF boundary" and hs: "list_all header_ok headers"
  shows "decode (encode boundary headers body) = Inr (headers, body)"
proof -
  have m: "\<not> has_sep CR LF (''--'' @ boundary)"
    using b by (simp add: has_sep_Cons printable_neq_CR_LF)
  have e: "encode boundary headers body =
        (''--'' @ boundary) @ CR # LF # (concat (map header_line headers) @ CRLF @ (body @ CRLF))"
    by (simp add: encode_def get_message_def build_def CRLF_def)
  have s: "split_sep CR LF (encode boundary headers body) =
        Some (''--'' @ boundary, concat (map header_line headers) @ CRLF @ (body @ CRLF))"
    unfolding e by (rule split_sep_append [OF CR_neq_LF m])
  have t: "length CRLF = 2"
    by (simp add: CRLF_def)
  show ?thesis
    by (simp add: decode_def s parse_headers_lines [OF hs] t)
qed

text \<open>
  C8, as amended. For every boundary string with no line terminator in it, every list of
  headers whose keys hold neither a colon followed by a space nor a line terminator and
  whose values hold no line terminator, and every body, decoding the encoded message
  gives back exactly the headers and the body.
\<close>

theorem codec_round_trip:
  assumes "\<not> has_sep CR LF boundary" and "list_all header_ok headers"
  shows "decode (encode boundary headers body) = Inr (headers, body)"
  using assms by (rule decode_encode)

text \<open>The headers of the endpoint and its boundary are of that kind.\<close>

lemma frame_headers_ok: "list_all header_ok frame_headers"
  by (simp add: frame_headers_def header_ok_def CR_def LF_def)

lemma frame_boundary_ok: "\<not> has_sep CR LF ''frame''"
  by (simp add: CR_def LF_def)

text \<open>The theorem at the boundary \<open>frame\<close>, the endpoint's four headers and the body \<open>{}\<close>.\<close>

theorem codec_round_trip_witness:
  "decode (encode ''frame'' frame_headers ''{}'') = Inr (frame_headers, ''{}'')"
  using codec_round_trip [OF frame_boundary_ok frame_headers_ok, of "''{}''"] by simp

text \<open>
  C8 as stated fails: the header with the key \<open>a: b\<close> and the value \<open>c\<close> is encoded to
  the same bytes as the header with the key \<open>a\<close> and the value \<open>b: c\<close>, so decoding
  cannot give back both; it gives back the second.
\<close>

theorem codec_round_trip_counterexample:
  "decode (encode ''frame'' [(''a: b'', ''c'')] ''xyz'') \<noteq> Inr ([(''a: b'', ''c'')], ''xyz'')
   \<and> encode ''frame'' [(''a: b'', ''c'')] ''xyz'' = encode ''frame'' [(''a'', ''b: c'')] ''xyz''"
proof -
  have e: "encode ''frame'' [(''a: b'', ''c'')] ''xyz'' = encode ''frame'' [(''a'', ''b: c'')] ''xyz''"
    by (simp add: encode_def build_def get_message_def header_line_def)
  have ok: "list_all header_ok [(''a'', ''b: c'')]"
    by (simp add: header_ok_def CR_def LF_def)
  have "decode (encode ''frame'' [(''a: b'', ''c'')] ''xyz'') = Inr ([(''a'', ''b: c'')], ''xyz'')"
    unfolding e by (rule decode_encode [OF frame_boundary_ok ok])
  then show ?thesis using e by simp
qed

section \<open>The run of a propagation call\<close>

lemma seq_next_lt: "i < yield_count s \<Longrightarrow> seq_next s i = Item (results s ! i)"
  by (auto simp: seq_next_def yield_count_def split: option.splits)

lemma seq_next_end:
  "seq_next s (yield_count s) = (case seq_end s of Some e \<Rightarrow> Raised e | None \<Rightarrow> StopIteration)"
  by (auto simp: seq_next_def yield_count_def seq_end_def min_def split: option.splits)

lemma yield_count_le: "yield_count s \<le> length (results s)"
  by (simp add: yield_count_def split: option.splits)

lemma drop_yielded_items:
  "i < yield_count s \<Longrightarrow> drop i (yielded_items s) = results s ! i # drop (Suc i) (yielded_items s)"
  using yield_count_le [of s] by (simp add: yielded_items_def Cons_nth_drop_Suc [symmetric])

lemma serve_Suspended:
  assumes "g_state g = Suspended i" and "i \<le> yield_count (engine (request_data g))"
  shows "serve engine to_json writes g =
     run_loop (chunk_message (g_boundary g) to_json)
       (drop i (yielded_items (engine (request_data g)))) (seq_end (engine (request_data g))) writes"
  using assms
proof (induction "yield_count (engine (request_data g)) - i" arbitrary: i g writes)
  case 0
  then have i: "i = yield_count (engine (request_data g))" by simp
  have d: "drop i (yielded_items (engine (request_data g))) = []"
    by (simp add: i yielded_items_def)
  show ?case
    unfolding d using 0(2) seq_next_end [of "engine (request_data g)"]
    by (subst serve.simps)
       (auto simp: i gen_next_def for_loop_step_def gen_close_def split: option.splits)
next
  case (Suc n)
  let ?s = "engine (request_data g)"
  let ?g = "g\<lparr>g_state := Suspended (Suc i)\<rparr>"
  from Suc have lt: "i < yield_count ?s" by simp
  have rd: "request_data ?g = request_data g" and b: "g_boundary ?g = g_boundary g"
    by (simp_all add: request_data_def)
  have nx: "gen_next engine to_json g =
      (Item (chunk_message (g_boundary g) to_json (results ?s ! i)),
       [Pulled (results ?s ! i), Yielded (chunk_message (g_boundary g) to_json (results ?s ! i))], ?g)"
    using Suc.prems(1) seq_next_lt [OF lt] by (simp add: gen_next_def for_loop_step_def)
  have IH: "serve engine to_json w ?g =
     run_loop (chunk_message (g_boundary g) to_json) (drop (Suc i) (yielded_items ?s)) (seq_end ?s) w" for w
    using Suc.hyps(1) [where g = ?g and i = "Suc i" and writes = w] Suc.hyps(2) lt by (simp add: rd b)
  show ?case
    by (subst serve.simps) (simp add: nx drop_yielded_items [OF lt] IH gen_close_def)
qed

lemma serve_NotStarted:
  assumes "g_state g = NotStarted"
  shows "serve engine to_json writes g =
     (case run_loop (chunk_message (g_boundary g) to_json)
             (yielded_items (engine (request_data g))) (seq_end (engine (request_data g))) writes of
        (ev, sent, e) \<Rightarrow>
          (ContextEnter # Logged (request_data g) # Logged (request_data g) #
             EngineCalled (request_data g) # ev, sent, e))"
proof (cases "yielded_items (engine (request_data g))")
  case Nil
  let ?s = "engine (request_data g)"
  from Nil have z: "yield_count ?s = 0"
    using yield_count_le [of ?s] by (auto simp: yielded_items_def)
  show ?thesis
    using assms seq_next_end [of ?s]
    by (subst serve.simps)
       (auto simp: Nil z gen_next_def for_loop_step_def gen_close_def split: option.splits)
next
  case (Cons c cs)
  let ?s = "engine (request_data g)"
  let ?g = "g\<lparr>g_state := Suspended (Suc 0)\<rparr>"
  from Cons have lt: "0 < yield_count ?s"
    by (cases "yield_count ?s") (auto simp: yielded_items_def)
  have c: "results ?s ! 0 = c" and cs: "drop (Suc 0) (yielded_items ?s) = cs"
    using drop_yielded_items [OF lt] Cons by simp_all
  have rd: "request_data ?g = request_data g" and b: "g_boundary ?g = g_boundary g"
    by (simp_all add: request_data_def)
  have S: "serve engine to_json w ?g =
     run_loop (chunk_message (g_boundary g) to_json) cs (seq_end ?s) w" for w
    using serve_Suspended [where g = ?g and i = "Suc 0" and engine = engine and to_json = to_json and writes = w] lt
    by (simp add: rd b cs)
  show ?thesis
    using assms seq_next_lt [OF lt]
    by (subst serve.simps)
       (simp add: Cons c gen_next_def for_loop_step_def S gen_close_def split: prod.splits)
qed

lemma run_loop_closed:
  "run_loop msg cs fin writes =
     (turns msg (take (case writes of None \<Rightarrow> length cs | Some d \<Rightarrow> Suc d) cs) @ [ContextExit],
      map msg (take (case writes of None \<Rightarrow> length cs | Some d \<Rightarrow> d) cs),
      (case writes of
         None \<Rightarrow> ending_of fin
       | Some d \<Rightarrow> if d < length cs then Disconnected else ending_of fin))"
proof (induction cs arbitrary: writes)
  case Nil
  show ?case by (simp add: turns_def ending_of_def split: option.splits)
next
  case (Cons c cs)
  show ?case
  proof (cases writes)
    case None
    then show ?thesis by (simp add: Cons turns_def)
  next
    case (Some d)
    then show ?thesis by (cases d) (simp_all add: Cons turns_def)
  qed
qed

lemma yielded_turns [simp]: "yielded (turns msg cs @ tr) = map msg cs @ yielded tr"
  by (induction cs) (simp_all add: turns_def)

lemma pulled_chunks_turns [simp]: "pulled_chunks (turns msg cs @ tr) = cs @ pulled_chunks tr"
  by (induction cs) (simp_all add: turns_def)

lemma engine_calls_turns [simp]: "engine_calls (turns msg cs @ tr) = engine_calls tr"
  by (induction cs) (simp_all add: turns_def)

lemma context_not_in_turns [simp]:
  "ContextEnter \<notin> set (turns msg cs)" "ContextExit \<notin> set (turns msg cs)"
  by (auto simp: turns_def)

text \<open>The whole run of a generator that has not started.\<close>

lemma serve_fresh:
  assumes "g_state g = NotStarted"
  shows "serve engine to_json writes g =
     (ContextEnter # Logged (request_data g) # Logged (request_data g) # EngineCalled (request_data g) #
        turns (chunk_message (g_boundary g) to_json) (pulls writes (engine (request_data g))) @ [ContextExit],
      map (chunk_message (g_boundary g) to_json) (written writes (engine (request_data g))),
      (case writes of
         None \<Rightarrow> ending_of (seq_end (engine (request_data g)))
       | Some d \<Rightarrow>
           if d < length (yielded_items (engine (request_data g))) then Disconnected
           else ending_of (seq_end (engine (request_data g)))))"
  by (simp add: serve_NotStarted [OF assms] run_loop_closed pulls_def written_def)

lemma gen_fresh [simp]:
  "g_state (gen_track_with_mask_stream boundary sid sfi qtm) = NotStarted"
  "g_boundary (gen_track_with_mask_stream boundary sid sfi qtm) = boundary"
  "request_data (gen_track_with_mask_stream boundary sid sfi qtm) =
     \<lparr>req_type = ''propagate_in_video'', session_id = sid, start_frame_index = sfi,
      quick_test_mode = qtm\<rparr>"
  by (simp_all add: gen_track_with_mask_stream_def request_data_def)

lemma fails_yielded_items:
  assumes "fails_after s = Some (k, err)" and "k \<le> length (results s)"
  shows "yielded_items s = take k (results s)" and "seq_end s = Some err"
    and "length (yielded_items s) = k"
  using assms by (simp_all add: yielded_items_def yield_count_def seq_end_def)

lemma count_list_turns [simp]:
  "count_list (turns msg cs) ContextEnter = 0" "count_list (turns msg cs) ContextExit = 0"
  by (induction cs) (simp_all add: turns_def)

text \<open>
  The block is entered by the first \<open>next\<close>, not by the call of the generator function: a
  generator that is closed before it was ever pulled has neither acquired nor released
  the context. The transport never does that: it pulls before it writes, and it is the
  write that shows a disconnect.
\<close>

lemma close_before_first_pull:
  "gen_close (gen_track_with_mask_stream boundary sid sfi qtm) =
     ([], (gen_track_with_mask_stream boundary sid sfi qtm)\<lparr>g_state := Finished\<rparr>)"
  by (simp add: gen_close_def)

text \<open>
  C1. In every run of a propagation call, whatever the engine yields or raises and
  whenever the client disconnects, the events start with the acquisition of the execution
  context, end with its release, and hold no other acquisition or release: the context is
  acquired once, before anything is pulled from the engine, and released once, after the
  last event. When the engine's sequence raises after \<open>k\<close> results, the messages yielded
  are those of the first \<open>j\<close> results for some \<open>j \<le> k\<close>; and when the client has not
  disconnected before, they are exactly those of the first \<open>k\<close> results, all of them are
  written, and the stream ends with that error.
\<close>

theorem context_brackets_consumption:
  fixes engine :: "PropagateInVideoRequest \<Rightarrow> 'c frame_sequence"
    and to_json writes boundary sid sfi qtm
  defines "g \<equiv> gen_track_with_mask_stream boundary sid sfi qtm"
  defines "s \<equiv> engine (request_data (gen_track_with_mask_stream boundary sid sfi qtm))"
  defines "run \<equiv> serve engine to_json writes (gen_track_with_mask_stream boundary sid sfi qtm)"
  shows "(\<exists>mid. fst run = ContextEnter # mid @ [ContextExit]
             \<and> ContextEnter \<notin> set mid \<and> ContextExit \<notin> set mid)
       \<and> count_list (fst run) ContextEnter = 1
       \<and> count_list (fst run) ContextExit = 1
       \<and> (fails_after s = Some (k, err) \<and> k \<le> length (results s) \<longrightarrow>
            (\<exists>j\<le>k. yielded (fst run) = map (chunk_message boundary to_json) (take j (results s)))
          \<and> (writes = None \<or> (\<exists>d. writes = Some d \<and> k \<le> d) \<longrightarrow>
               yielded (fst run) = map (chunk_message boundary to_json) (take k (results s))
             \<and> fst (snd run) = map (chunk_message boundary to_json) (take k (results s))
             \<and> snd (snd run) = Aborted err))"
proof -
  let ?r = "request_data g"
  let ?msg = "chunk_message boundary to_json"
  let ?mid = "Logged ?r # Logged ?r # EngineCalled ?r # turns ?msg (pulls writes s)"
  have run: "run =
     (ContextEnter # ?mid @ [ContextExit], map ?msg (written writes s),
      (case writes of
         None \<Rightarrow> ending_of (seq_end s)
       | Some d \<Rightarrow> if d < length (yielded_items s) then Disconnected else ending_of (seq_end s)))"
    unfolding run_def s_def g_def by (subst serve_fresh) simp_all
  have tr: "fst run = ContextEnter # ?mid @ [ContextExit]"
    by (simp add: run)
  have mid: "ContextEnter \<notin> set ?mid" "ContextExit \<notin> set ?mid"
    by simp_all
  have bracket: "\<exists>mid. fst run = ContextEnter # mid @ [ContextExit]
             \<and> ContextEnter \<notin> set mid \<and> ContextExit \<notin> set mid"
    using tr mid by blast
  have once: "count_list (fst run) ContextEnter = 1" "count_list (fst run) ContextExit = 1"
    by (simp_all add: tr)
  have y: "yielded (fst run) = map ?msg (pulls writes s)"
    using yielded_turns [of ?msg "pulls writes s" "[ContextExit]"] by (simp add: tr)
  have fails: "(\<exists>j\<le>k. yielded (fst run) = map ?msg (take j (results s)))
          \<and> (writes = None \<or> (\<exists>d. writes = Some d \<and> k \<le> d) \<longrightarrow>
               yielded (fst run) = map ?msg (take k (results s))
             \<and> fst (snd run) = map ?msg (take k (results s))
             \<and> snd (snd run) = Aborted err)"
    if f: "fails_after s = Some (k, err) \<and> k \<le> length (results s)"
  proof -
    note it = fails_yielded_items [of s k err]
    have items: "yielded_items s = take k (results s)" and fin: "seq_end s = Some err"
      and len: "length (yielded_items s) = k"
      using f it by simp_all
    show ?thesis
    proof (cases writes)
      case None
      have "pulls writes s = take k (results s)" "written writes s = take k (results s)"
        using len by (simp_all add: pulls_def written_def None items)
      then show ?thesis
        using f by (auto simp: y run None fin ending_of_def)
    next
      case (Some d)
      have p: "pulls (Some d) s = take (min (Suc d) k) (results s)"
        by (simp add: pulls_def items)
      have w: "k \<le> d \<Longrightarrow> written (Some d) s = take k (results s)"
        by (simp add: written_def items min_def)
      have "\<exists>j\<le>k. yielded (fst run) = map ?msg (take j (results s))"
        unfolding y Some p by (rule exI [of _ "min (Suc d) k"]) simp
      moreover have "yielded (fst run) = map ?msg (take k (results s))
             \<and> fst (snd run) = map ?msg (take k (results s))
             \<and> snd (snd run) = Aborted err" if "k \<le> d"
      proof -
        have m: "min (Suc d) k = k" using that by simp
        show ?thesis
          using that by (simp add: y run Some p m w [OF that] fin ending_of_def len)
      qed
      ultimately show ?thesis
        using Some by auto
    qed
  qed
  show ?thesis
    using bracket once fails by blast
qed

text \<open>
  The theorem at an engine with five results that raises after two of them: one
  acquisition, one release, two messages, and the stream ends with the error.
\<close>

theorem context_brackets_consumption_witness:
  "(\<exists>mid. fst (serve fails_after_two response_to_json None
                 (gen_track_with_mask_stream ''frame'' (JString ''s1'') (JInt 0) (JBool False))) =
             ContextEnter # mid @ [ContextExit]
           \<and> ContextEnter \<notin> set mid \<and> ContextExit \<notin> set mid)
   \<and> yielded (fst (serve fails_after_two response_to_json None
                 (gen_track_with_mask_stream ''frame'' (JString ''s1'') (JInt 0) (JBool False)))) =
       [chunk_message ''frame'' response_to_json (frame_result 0),
        chunk_message ''frame'' response_to_json (frame_result 1)]
   \<and> snd (snd (serve fails_after_two response_to_json None
                 (gen_track_with_mask_stream ''frame'' (JString ''s1'') (JInt 0) (JBool False)))) =
       Aborted InferenceFailure"
  using context_brackets_consumption
    [where engine = fails_after_two and to_json = response_to_json and writes = None
       and boundary = "''frame''" and sid = "JString ''s1''" and sfi = "JInt 0"
       and qtm = "JBool False" and k = 2 and err = InferenceFailure]
  by (simp add: fails_after_two_def)

lemma chunk_message_encode:
  "chunk_message boundary to_json c = encode boundary frame_headers (to_json c)"
  by (simp add: chunk_message_def encode_def encode_UTF8_def)

lemma decode_chunk_message:
  "\<not> has_sep CR LF boundary \<Longrightarrow>
   decode (chunk_message boundary to_json c) = Inr (frame_headers, to_json c)"
  unfolding chunk_message_encode by (rule decode_encode [OF _ frame_headers_ok])

lemma header_value_chunk_message:
  "\<not> has_sep CR LF boundary \<Longrightarrow>
   header_value k (chunk_message boundary to_json c) = map_of frame_headers k"
  by (simp add: header_value_def decode_chunk_message)

lemma frame_current: "map_of frame_headers ''Frame-Current'' = Some ''-1''"
  by (simp add: frame_headers_def)

lemma serve_fresh_gen:
  "serve engine to_json writes (gen_track_with_mask_stream boundary sid sfi qtm) =
     (ContextEnter #
      Logged \<lparr>req_type = ''propagate_in_video'', session_id = sid, start_frame_index = sfi, quick_test_mode = qtm\<rparr> #
      Logged \<lparr>req_type = ''propagate_in_video'', session_id = sid, start_frame_index = sfi, quick_test_mode = qtm\<rparr> #
      EngineCalled \<lparr>req_type = ''propagate_in_video'', session_id = sid, start_frame_index = sfi, quick_test_mode = qtm\<rparr> #
        turns (chunk_message boundary to_json)
          (pulls writes (engine \<lparr>req_type = ''propagate_in_video'', session_id = sid, start_frame_index = sfi, quick_test_mode = qtm\<rparr>))
        @ [ContextExit],
      map (chunk_message boundary to_json)
        (written writes (engine \<lparr>req_type = ''propagate_in_video'', session_id = sid, start_frame_index = sfi, quick_test_mode = qtm\<rparr>)),
      (case writes of
         None \<Rightarrow> ending_of (seq_end (engine \<lparr>req_type = ''propagate_in_video'', session_id = sid, start_frame_index = sfi, quick_test_mode = qtm\<rparr>))
       | Some d \<Rightarrow>
           if d < length (yielded_items (engine \<lparr>req_type = ''propagate_in_video'', session_id = sid, start_frame_index = sfi, quick_test_mode = qtm\<rparr>)) then Disconnected
           else ending_of (seq_end (engine \<lparr>req_type = ''propagate_in_video'', session_id = sid, start_frame_index = sfi, quick_test_mode = qtm\<rparr>))))"
  by (subst serve_fresh) (simp_all split: option.splits)

lemma no_failure_yielded_items:
  "fails_after s = None \<Longrightarrow> yielded_items s = results s"
  by (simp add: yielded_items_def yield_count_def)

lemma pulls_written_None:
  "pulls None s = yielded_items s" "written None s = yielded_items s"
  by (simp_all add: pulls_def written_def)

text \<open>
  C6. In every run, each chunk pulled from the engine is followed at once by the one
  message built from it, before the next chunk is pulled; the messages are in the order of
  the chunks, which are an initial part of what the engine yields, and all of it when the
  client does not disconnect: an engine that yields its results and stops gets exactly
  one message per result written, in the order of the results. Each message is the
  encoding, with the endpoint's headers, of the bytes of the JSON text \<open>chunk.to_json()\<close>
  in UTF-8, and decoding the message gives exactly those bytes back as its body.
\<close>

theorem one_message_per_result:
  fixes engine :: "PropagateInVideoRequest \<Rightarrow> 'c frame_sequence"
    and to_json writes boundary sid sfi qtm
  defines "g \<equiv> gen_track_with_mask_stream boundary sid sfi qtm"
  defines "s \<equiv> engine (request_data (gen_track_with_mask_stream boundary sid sfi qtm))"
  defines "run \<equiv> serve engine to_json writes (gen_track_with_mask_stream boundary sid sfi qtm)"
  shows "fst run =
           [ContextEnter, Logged (request_data g), Logged (request_data g), EngineCalled (request_data g)]
           @ concat (map (\<lambda>c. [Pulled c, Yielded (chunk_message boundary to_json c)])
                       (pulled_chunks (fst run)))
           @ [ContextExit]
       \<and> yielded (fst run) = map (chunk_message boundary to_json) (pulled_chunks (fst run))
       \<and> (\<exists>n. pulled_chunks (fst run) = take n (yielded_items s))
       \<and> (\<exists>n. fst (snd run) = map (chunk_message boundary to_json) (take n (yielded_items s)))
       \<and> (writes = None \<longrightarrow>
            pulled_chunks (fst run) = yielded_items s
          \<and> fst (snd run) = map (chunk_message boundary to_json) (yielded_items s))
       \<and> (writes = None \<and> fails_after s = None \<longrightarrow>
            pulled_chunks (fst run) = results s
          \<and> yielded (fst run) = map (\<lambda>c. encode boundary frame_headers (to_json c)) (results s)
          \<and> fst (snd run) = map (\<lambda>c. encode boundary frame_headers (to_json c)) (results s)
          \<and> length (fst (snd run)) = length (results s)
          \<and> snd (snd run) = Completed)
       \<and> chunk_message boundary to_json c = encode boundary frame_headers (to_json c)
       \<and> (\<not> has_sep CR LF boundary \<longrightarrow>
            decode (chunk_message boundary to_json c) = Inr (frame_headers, to_json c))"
proof -
  let ?msg = "chunk_message boundary to_json"
  have run: "run =
     (ContextEnter # Logged (request_data g) # Logged (request_data g) # EngineCalled (request_data g) #
        turns ?msg (pulls writes s) @ [ContextExit],
      map ?msg (written writes s),
      (case writes of
         None \<Rightarrow> ending_of (seq_end s)
       | Some d \<Rightarrow> if d < length (yielded_items s) then Disconnected else ending_of (seq_end s)))"
    unfolding run_def s_def g_def by (subst serve_fresh) simp_all
  have pc: "pulled_chunks (fst run) = pulls writes s"
    using pulled_chunks_turns [of ?msg "pulls writes s" "[ContextExit]"] by (simp add: run)
  have y: "yielded (fst run) = map ?msg (pulls writes s)"
    using yielded_turns [of ?msg "pulls writes s" "[ContextExit]"] by (simp add: run)
  have e: "?msg = (\<lambda>c. encode boundary frame_headers (to_json c))"
    by (rule ext) (rule chunk_message_encode)
  have 1: "fst run =
           [ContextEnter, Logged (request_data g), Logged (request_data g), EngineCalled (request_data g)]
           @ concat (map (\<lambda>c. [Pulled c, Yielded (?msg c)]) (pulled_chunks (fst run)))
           @ [ContextExit]"
    unfolding pc by (simp add: run turns_def)
  have 2: "yielded (fst run) = map ?msg (pulled_chunks (fst run))"
    by (simp add: y pc)
  have 3: "\<exists>n. pulled_chunks (fst run) = take n (yielded_items s)"
    unfolding pc pulls_def by (rule exI) (rule refl)
  have 4: "\<exists>n. fst (snd run) = map ?msg (take n (yielded_items s))"
    unfolding run written_def by (rule exI) simp
  have 5: "writes = None \<longrightarrow>
      pulled_chunks (fst run) = yielded_items s \<and> fst (snd run) = map ?msg (yielded_items s)"
    by (simp add: pc run pulls_def written_def)
  have 6: "writes = None \<and> fails_after s = None \<longrightarrow>
            pulled_chunks (fst run) = results s
          \<and> yielded (fst run) = map (\<lambda>c. encode boundary frame_headers (to_json c)) (results s)
          \<and> fst (snd run) = map (\<lambda>c. encode boundary frame_headers (to_json c)) (results s)
          \<and> length (fst (snd run)) = length (results s)
          \<and> snd (snd run) = Completed"
  proof
    assume h: "writes = None \<and> fails_after s = None"
    then have w: "writes = None" and f: "fails_after s = None" by simp_all
    have it: "pulls writes s = results s" "written writes s = results s"
      by (simp_all add: w pulls_written_None no_failure_yielded_items [OF f])
    have fin: "seq_end s = None"
      by (simp add: seq_end_def f)
    have a: "pulled_chunks (fst run) = results s" by (simp add: pc it)
    have b: "yielded (fst run) = map ?msg (results s)" by (simp add: y it)
    have c: "fst (snd run) = map ?msg (results s)" by (simp add: run it)
    have d: "snd (snd run) = Completed" by (simp add: run w fin ending_of_def)
    show "pulled_chunks (fst run) = results s
          \<and> yielded (fst run) = map (\<lambda>c. encode boundary frame_headers (to_json c)) (results s)
          \<and> fst (snd run) = map (\<lambda>c. encode boundary frame_headers (to_json c)) (results s)
          \<and> length (fst (snd run)) = length (results s)
          \<and> snd (snd run) = Completed"
      using a b c d unfolding e by simp
  qed
  have 7: "?msg c = encode boundary frame_headers (to_json c)"
    by (rule chunk_message_encode)
  have 8: "\<not> has_sep CR LF boundary \<longrightarrow> decode (?msg c) = Inr (frame_headers, to_json c)"
    by (simp add: decode_chunk_message)
  show ?thesis
    by (intro conjI) (rule 1 2 3 4 5 6 7 8)+
qed

text \<open>
  The theorem at the engine that yields the frames 0 to 3 and stops: four messages, in
  that order, and the body of the first one, read back from its bytes, is the JSON text
  of the frame 0.
\<close>

theorem one_message_per_result_witness:
  "fst (snd (serve four_frames response_to_json None
               (gen_track_with_mask_stream ''frame'' (JString ''s1'') (JInt 0) (JBool False)))) =
     map (\<lambda>c. encode ''frame'' frame_headers (response_to_json c))
       [frame_result 0, frame_result 1, frame_result 2, frame_result 3]
   \<and> decode (chunk_message ''frame'' response_to_json (frame_result 0)) =
       Inr (frame_headers, response_to_json (frame_result 0))"
proof -
  have f: "fails_after (four_frames r) = None"
    "results (four_frames r) = [frame_result 0, frame_result 1, frame_result 2, frame_result 3]" for r
    by (simp_all add: four_frames_def)
  note t = one_message_per_result
      [where engine = four_frames and to_json = response_to_json and writes = None
         and boundary = "''frame''" and sid = "JString ''s1''" and sfi = "JInt 0"
         and qtm = "JBool False" and c = "frame_result 0", unfolded f]
  have a: "fst (snd (serve four_frames response_to_json None
               (gen_track_with_mask_stream ''frame'' (JString ''s1'') (JInt 0) (JBool False)))) =
     map (\<lambda>c. encode ''frame'' frame_headers (response_to_json c))
       [frame_result 0, frame_result 1, frame_result 2, frame_result 3]"
    using t [THEN conjunct2, THEN conjunct2, THEN conjunct2, THEN conjunct2, THEN conjunct2,
        THEN conjunct1]
    by simp
  have b: "decode (chunk_message ''frame'' response_to_json (frame_result 0)) =
       Inr (frame_headers, response_to_json (frame_result 0))"
    by (rule mp [OF t [THEN conjunct2, THEN conjunct2, THEN conjunct2, THEN conjunct2,
        THEN conjunct2, THEN conjunct2, THEN conjunct2] frame_boundary_ok])
  show ?thesis
    using a b by (rule conjI)
qed

text \<open>
  C2, as amended. For every sequence of results of the engine, whatever their frame
  indices, the messages are written in the order of the results, one for each result
  whose message the client takes, and the \<open>Frame-Current\<close> header of every one of them,
  and of every message yielded, is the string \<open>-1\<close>: the headers handed to the builder
  are the same literal ones for every chunk. In particular, when the engine yields its
  results and stops and the client does not disconnect, there are as many messages as
  results, and their \<open>Frame-Current\<close> headers are that many times \<open>-1\<close>.
\<close>

theorem frame_current_header:
  fixes engine :: "PropagateInVideoRequest \<Rightarrow> 'c frame_sequence"
    and to_json writes boundary sid sfi qtm
  defines "s \<equiv> engine (request_data (gen_track_with_mask_stream boundary sid sfi qtm))"
  defines "run \<equiv> serve engine to_json writes (gen_track_with_mask_stream boundary sid sfi qtm)"
  assumes "\<not> has_sep CR LF boundary"
  shows "fst (snd run) =
           map (\<lambda>c. encode boundary frame_headers (to_json c)) (written writes s)
       \<and> yielded (fst run) =
           map (\<lambda>c. encode boundary frame_headers (to_json c)) (pulls writes s)
       \<and> map (header_value ''Frame-Current'') (fst (snd run)) =
           replicate (length (written writes s)) (Some ''-1'')
       \<and> map (header_value ''Frame-Current'') (yielded (fst run)) =
           replicate (length (pulls writes s)) (Some ''-1'')
       \<and> map_of frame_headers ''Frame-Current'' = Some ''-1''
       \<and> (writes = None \<and> fails_after s = None \<longrightarrow>
            fst (snd run) = map (\<lambda>c. encode boundary frame_headers (to_json c)) (results s)
          \<and> map (header_value ''Frame-Current'') (fst (snd run)) =
              replicate (length (results s)) (Some ''-1''))"
proof -
  let ?msg = "chunk_message boundary to_json"
  have hv: "map (header_value ''Frame-Current'') (map ?msg cs) = replicate (length cs) (Some ''-1'')" for cs
    using assms(3) by (induction cs) (simp_all add: header_value_chunk_message frame_current)
  have e: "?msg = (\<lambda>c. encode boundary frame_headers (to_json c))"
    by (rule ext) (rule chunk_message_encode)
  have sent: "fst (snd run) = map ?msg (written writes s)"
    unfolding run_def s_def by (subst serve_fresh) simp_all
  have y: "yielded (fst run) = map ?msg (pulls writes s)"
    unfolding run_def s_def
    using yielded_turns [of ?msg _ "[ContextExit]"] by (subst serve_fresh) simp_all
  have 1: "fst (snd run) = map (\<lambda>c. encode boundary frame_headers (to_json c)) (written writes s)"
    using sent unfolding e .
  have 2: "yielded (fst run) = map (\<lambda>c. encode boundary frame_headers (to_json c)) (pulls writes s)"
    using y unfolding e .
  have 3: "map (header_value ''Frame-Current'') (fst (snd run)) =
           replicate (length (written writes s)) (Some ''-1'')"
    unfolding sent by (rule hv)
  have 4: "map (header_value ''Frame-Current'') (yielded (fst run)) =
           replicate (length (pulls writes s)) (Some ''-1'')"
    unfolding y by (rule hv)
  have 6: "writes = None \<and> fails_after s = None \<longrightarrow>
            fst (snd run) = map (\<lambda>c. encode boundary frame_headers (to_json c)) (results s)
          \<and> map (header_value ''Frame-Current'') (fst (snd run)) =
              replicate (length (results s)) (Some ''-1'')"
  proof
    assume "writes = None \<and> fails_after s = None"
    then have w: "written writes s = results s"
      by (simp add: pulls_written_None no_failure_yielded_items)
    show "fst (snd run) = map (\<lambda>c. encode boundary frame_headers (to_json c)) (results s)
          \<and> map (header_value ''Frame-Current'') (fst (snd run)) =
              replicate (length (results s)) (Some ''-1'')"
      using 1 3 unfolding w by (rule conjI)
  qed
  show ?thesis
    by (intro conjI) (rule 1 2 3 4 frame_current 6)+
qed

text \<open>
  The theorem at the engine that yields the frames 0 to 3 and stops: four messages, and
  their \<open>Frame-Current\<close> headers are four times \<open>-1\<close>.
\<close>

theorem frame_current_header_witness:
  "fst (snd (serve four_frames response_to_json None
               (gen_track_with_mask_stream ''frame'' (JString ''s1'') (JInt 0) (JBool False)))) =
     map (\<lambda>c. encode ''frame'' frame_headers (response_to_json c))
       [frame_result 0, frame_result 1, frame_result 2, frame_result 3]
   \<and> map (header_value ''Frame-Current'')
     (fst (snd (serve four_frames response_to_json None
                  (gen_track_with_mask_stream ''frame'' (JString ''s1'') (JInt 0) (JBool False))))) =
     [Some ''-1'', Some ''-1'', Some ''-1'', Some ''-1'']"
proof -
  have f: "fails_after (four_frames r) = None"
    "results (four_frames r) = [frame_result 0, frame_result 1, frame_result 2, frame_result 3]" for r
    by (simp_all add: four_frames_def)
  note t = frame_current_header
      [OF frame_boundary_ok, where engine = four_frames and to_json = response_to_json
         and writes = None and sid = "JString ''s1''" and sfi = "JInt 0" and qtm = "JBool False",
       unfolded f]
  have l: "replicate (length [frame_result 0, frame_result 1, frame_result 2, frame_result 3])
      (Some ''-1'') = [Some ''-1'', Some ''-1'', Some ''-1'', Some ''-1'']"
    by (simp add: numeral_eq_Suc)
  have c: "fst (snd (serve four_frames response_to_json None
               (gen_track_with_mask_stream ''frame'' (JString ''s1'') (JInt 0) (JBool False)))) =
     map (\<lambda>c. encode ''frame'' frame_headers (response_to_json c))
       [frame_result 0, frame_result 1, frame_result 2, frame_result 3]
   \<and> map (header_value ''Frame-Current'')
     (fst (snd (serve four_frames response_to_json None
                  (gen_track_with_mask_stream ''frame'' (JString ''s1'') (JInt 0) (JBool False))))) =
     replicate (length [frame_result 0, frame_result 1, frame_result 2, frame_result 3])
       (Some ''-1'')"
    by (rule mp [OF t [THEN conjunct2, THEN conjunct2, THEN conjunct2, THEN conjunct2,
        THEN conjunct2]]) simp
  show ?thesis
    using c unfolding l .
qed

text \<open>
  C2 as stated fails: for the results with the frame indices 0, 1, 2, 3 the
  \<open>Frame-Current\<close> headers of the messages are not \<open>0\<close>, \<open>1\<close>, \<open>2\<close>, \<open>3\<close>.
\<close>

theorem frame_current_header_counterexample:
  "map frame_index
     (results (four_frames
        (request_data (gen_track_with_mask_stream ''frame'' (JString ''s1'') (JInt 0) (JBool False))))) =
     [0, 1, 2, 3]
   \<and> map (header_value ''Frame-Current'')
       (fst (snd (serve four_frames response_to_json None
                    (gen_track_with_mask_stream ''frame'' (JString ''s1'') (JInt 0) (JBool False))))) \<noteq>
     [Some ''0'', Some ''1'', Some ''2'', Some ''3'']"
proof -
  have "map (header_value ''Frame-Current'')
       (fst (snd (serve four_frames response_to_json None
                    (gen_track_with_mask_stream ''frame'' (JString ''s1'') (JInt 0) (JBool False))))) =
     [Some ''-1'', Some ''-1'', Some ''-1'', Some ''-1'']"
    by (simp add: serve_fresh_gen written_def yielded_items_def yield_count_def four_frames_def
        header_value_chunk_message [OF frame_boundary_ok] frame_current)
  then show ?thesis
    by (simp add: four_frames_def frame_result_def)
qed

section \<open>From the payload to the engine and to the client\<close>


text \<open>
  C7. For a payload that passes validation, every run of the response's generator calls
  the engine exactly once, with a request object whose \<open>start_frame_index\<close> and
  \<open>quick_test_mode\<close> are the values read from the payload (the defaults when absent):
  a value present in the payload reaches the engine unchanged.
\<close>

theorem parameters_forwarded_verbatim:
  fixes engine :: "PropagateInVideoRequest \<Rightarrow> 'c frame_sequence"
    and to_json writes d sid
  defines "g \<equiv> gen_track_with_mask_stream ''frame'' sid
                 (dict_get d ''start_frame_index'' (JInt 0))
                 (dict_get d ''quick_test_mode'' (JBool False))"
  assumes "map_of d ''session_id'' = Some sid" and "sid \<noteq> JNull"
  shows "propagate_in_video (Inr (JObject d)) =
           Inr (Response_stream g ''multipart/x-savi-stream; boundary=frame'')
       \<and> engine_calls (fst (serve engine to_json writes g)) =
           [\<lparr>req_type = ''propagate_in_video'', session_id = sid,
             start_frame_index = dict_get d ''start_frame_index'' (JInt 0),
             quick_test_mode = dict_get d ''quick_test_mode'' (JBool False)\<rparr>]
       \<and> (map_of d ''start_frame_index'' = Some sfi \<longrightarrow>
             map start_frame_index (engine_calls (fst (serve engine to_json writes g))) = [sfi])
       \<and> (map_of d ''quick_test_mode'' = Some qtm \<longrightarrow>
             map quick_test_mode (engine_calls (fst (serve engine to_json writes g))) = [qtm])"
proof -
  have r: "propagate_in_video (Inr (JObject d)) =
      Inr (Response_stream g ''multipart/x-savi-stream; boundary=frame'')"
    unfolding g_def using assms(2,3) by (rule propagate_in_video_accepts)
  have c: "engine_calls (fst (serve engine to_json writes g)) =
               [\<lparr>req_type = ''propagate_in_video'', session_id = sid,
                 start_frame_index = dict_get d ''start_frame_index'' (JInt 0),
                 quick_test_mode = dict_get d ''quick_test_mode'' (JBool False)\<rparr>]"
    unfolding g_def
    using engine_calls_turns [of "chunk_message ''frame'' to_json" _ "[ContextExit]"]
    by (simp add: serve_fresh_gen)
  have s: "map_of d ''start_frame_index'' = Some sfi \<longrightarrow>
      map start_frame_index (engine_calls (fst (serve engine to_json writes g))) = [sfi]"
    unfolding c by (simp add: dict_get_present)
  have q: "map_of d ''quick_test_mode'' = Some qtm \<longrightarrow>
      map quick_test_mode (engine_calls (fst (serve engine to_json writes g))) = [qtm]"
    unfolding c by (simp add: dict_get_present)
  show ?thesis
    by (intro conjI) (rule r c s q)+
qed

text \<open>
  The theorem at the payload
  \<open>{"session_id": "s1", "start_frame_index": 5, "quick_test_mode": true}\<close>.
\<close>

theorem parameters_forwarded_verbatim_witness:
  "propagate_in_video
      (Inr (JObject [(''session_id'', JString ''s1''), (''start_frame_index'', JInt 5),
                     (''quick_test_mode'', JBool True)])) =
      Inr (Response_stream
             (gen_track_with_mask_stream ''frame'' (JString ''s1'') (JInt 5) (JBool True))
             ''multipart/x-savi-stream; boundary=frame'')
   \<and> engine_calls
       (fst (serve four_frames response_to_json None
               (gen_track_with_mask_stream ''frame'' (JString ''s1'') (JInt 5) (JBool True)))) =
      [\<lparr>req_type = ''propagate_in_video'', session_id = JString ''s1'',
        start_frame_index = JInt 5, quick_test_mode = JBool True\<rparr>]"
proof -
  let ?d = "[(''session_id'', JString ''s1''), (''start_frame_index'', JInt 5),
             (''quick_test_mode'', JBool True)]"
  have h: "map_of ?d ''session_id'' = Some (JString ''s1'')" "JString ''s1'' \<noteq> JNull"
    by simp_all
  have v: "dict_get ?d ''start_frame_index'' (JInt 0) = JInt 5"
    "dict_get ?d ''quick_test_mode'' (JBool False) = JBool True"
    by (simp_all add: dict_get_def)
  note t = parameters_forwarded_verbatim
      [OF h, where engine = four_frames and to_json = response_to_json and writes = None,
       unfolded v]
  show ?thesis
    by (intro conjI) (rule t [THEN conjunct1], rule t [THEN conjunct2, THEN conjunct1])
qed




end
